theory Spec2Isabelle
  imports Main "HOL-Library.Word"
begin

unbundle bit_operations_syntax

section \<open>JavaScript values\<close>

text \<open>
  The utility in \<^verbatim>\<open>state.utils.ts\<close> is generic in the stored value (\<^verbatim>\<open>any\<close> in the two
  equality helpers), so the model has the value types of the language. A number is an IEEE 754
  double, kept as its 64 bits: sign, 11 exponent bits, 52 fraction bits. Objects and functions
  are references; what an object holds lives in the heap below. A function value is either
  a function of the caller, known by its reference, or the arrow function
  \<^verbatim>\<open>(pre) => ({...pre, ...input})\<close> that \<^verbatim>\<open>update\<close> builds around its argument; the latter is
  only ever handed to \<^verbatim>\<open>set\<close>, which calls it and drops it.
\<close>

datatype jsval =
    Undefined
  | Null
  | Bool bool
  | Num "64 word"
  | Str string
  | Sym nat
  | BigInt int
  | Obj nat
  | Fun (the_fn: fn)
and fn =
    User nat
  | Merge jsval

definition isNaN64 :: "64 word \<Rightarrow> bool" where
  \<comment> \<open>exponent all ones and a fraction that is not zero\<close>
  "isNaN64 w = (0x7FF0000000000000 < (w AND 0x7FFFFFFFFFFFFFFF))"

definition isZero64 :: "64 word \<Rightarrow> bool" where
  \<comment> \<open>the bits of \<open>+0\<close> and of \<open>-0\<close>\<close>
  "isZero64 w = (w = 0 \<or> w = 0x8000000000000000)"

definition typeof_js :: "jsval \<Rightarrow> string" where
  "typeof_js v =
     (case v of
        Undefined \<Rightarrow> ''undefined''
      | Null \<Rightarrow> ''object''
      | Bool _ \<Rightarrow> ''boolean''
      | Num _ \<Rightarrow> ''number''
      | Str _ \<Rightarrow> ''string''
      | Sym _ \<Rightarrow> ''symbol''
      | BigInt _ \<Rightarrow> ''bigint''
      | Obj _ \<Rightarrow> ''object''
      | Fun _ \<Rightarrow> ''function'')"

definition strict_eq :: "jsval \<Rightarrow> jsval \<Rightarrow> bool" where
  \<comment> \<open>\<^verbatim>\<open>x === y\<close>: on numbers NaN equals nothing and the two zeros are equal; references
      are equal when they are the same reference\<close>
  "strict_eq x y =
     (case (x, y) of
        (Num a, Num b) \<Rightarrow> \<not> isNaN64 a \<and> \<not> isNaN64 b \<and> (a = b \<or> (isZero64 a \<and> isZero64 b))
      | _ \<Rightarrow> x = y)"

definition one_over :: "jsval \<Rightarrow> jsval" where
  \<comment> \<open>\<^verbatim>\<open>1 / x\<close> where \<^verbatim>\<open>is\<close> evaluates it: behind \<^verbatim>\<open>x === y\<close> and \<^verbatim>\<open>x === 0\<close>, so on a
      signed zero, where the quotient is the infinity of the same sign (sign bit kept,
      exponent all ones, fraction zero). Other operands never reach the division.\<close>
  "one_over x =
     (case x of
        Num w \<Rightarrow> Num ((w AND 0x8000000000000000) OR 0x7FF0000000000000)
      | _ \<Rightarrow> Num 0x7FF8000000000000)"

definition is_js :: "jsval \<Rightarrow> jsval \<Rightarrow> bool" where
  \<comment> \<open>\<^verbatim>\<open>is\<close>, the inlined polyfill\<close>
  "is_js x y =
     ((strict_eq x y \<and> (\<not> strict_eq x (Num 0) \<or> strict_eq (one_over x) (one_over y)))
      \<or> (\<not> strict_eq x x \<and> \<not> strict_eq y y))"

definition Object_is :: "jsval \<Rightarrow> jsval \<Rightarrow> bool" where
  \<comment> \<open>the host's \<^verbatim>\<open>Object.is\<close>, ECMAScript's SameValue: values of different types differ,
      NaN is the same as NaN, \<open>+0\<close> and \<open>-0\<close> differ, every other number is the same as itself
      only, and references are the same when they are the same reference\<close>
  "Object_is x y =
     (case (x, y) of
        (Num a, Num b) \<Rightarrow> (isNaN64 a \<and> isNaN64 b) \<or> a = b
      | _ \<Rightarrow> x = y)"

definition objectIs :: "bool \<Rightarrow> jsval \<Rightarrow> jsval \<Rightarrow> bool" where
  \<comment> \<open>\<^verbatim>\<open>typeof Object.is === 'function' ? Object.is : is\<close>; the flag says whether the host
      has \<^verbatim>\<open>Object.is\<close>\<close>
  "objectIs has_Object_is = (if has_Object_is then Object_is else is_js)"

section \<open>Objects\<close>

text \<open>
  An object is the list of its own string-keyed data properties, in creation order, each
  enumerable or not (an array's \<^verbatim>\<open>length\<close> is an own property that is not enumerable).
  The language lists index-like names first; nothing below depends on the order. The
  heap is the list of the objects allocated so far; the reference \<open>Obj a\<close> is the index \<open>a\<close>.
  The code never writes to an object after creating it.
\<close>

datatype property = DataProperty (pkey: string) (pval: jsval) (enumerable: bool)

type_synonym obj = "property list"
type_synonym heap = "obj list"

definition wf_obj :: "obj \<Rightarrow> bool" where
  \<comment> \<open>an object has one property of a name at most\<close>
  "wf_obj ps = distinct (map pkey ps)"

definition props_of :: "heap \<Rightarrow> jsval \<Rightarrow> obj" where
  "props_of h v = (case v of Obj a \<Rightarrow> (if a < length h then h ! a else []) | _ \<Rightarrow> [])"

definition Object_keys :: "heap \<Rightarrow> jsval \<Rightarrow> string list" where
  \<comment> \<open>\<^verbatim>\<open>Object.keys(o)\<close>: the names of the own enumerable properties\<close>
  "Object_keys h v = map pkey (filter enumerable (props_of h v))"

definition hasOwnProperty :: "heap \<Rightarrow> jsval \<Rightarrow> string \<Rightarrow> bool" where
  \<comment> \<open>\<^verbatim>\<open>Object.prototype.hasOwnProperty.call(o, k)\<close>: enumerable or not\<close>
  "hasOwnProperty h v k = (k \<in> set (map pkey (props_of h v)))"

definition get_prop :: "heap \<Rightarrow> jsval \<Rightarrow> string \<Rightarrow> jsval" where
  \<comment> \<open>\<^verbatim>\<open>o[k]\<close> on an own data property; a name the object does not have reads as
      \<^verbatim>\<open>undefined\<close>\<close>
  "get_prop h v k =
     (case find (\<lambda>p. pkey p = k) (props_of h v) of None \<Rightarrow> Undefined | Some p \<Rightarrow> pval p)"

section \<open>shallowEqual\<close>

function keys_loop :: "heap \<Rightarrow> jsval \<Rightarrow> jsval \<Rightarrow> string list \<Rightarrow> nat \<Rightarrow> bool" where
  \<comment> \<open>the \<^verbatim>\<open>for\<close> loop over \<^verbatim>\<open>keysA\<close>, from index \<open>i\<close>\<close>
  "keys_loop h objA objB keysA i =
     (if i < length keysA then
        (if \<not> hasOwnProperty h objB (keysA ! i)
            \<or> \<not> is_js (get_prop h objA (keysA ! i)) (get_prop h objB (keysA ! i))
         then False
         else keys_loop h objA objB keysA (i + 1))
      else True)"
  by pat_completeness auto
termination
  by (relation "measure (\<lambda>(h, objA, objB, keysA, i). length keysA - i)") auto

definition shallowEqual :: "heap \<Rightarrow> jsval \<Rightarrow> jsval \<Rightarrow> bool" where
  "shallowEqual h objA objB =
     (if is_js objA objB then True
      else if typeof_js objA \<noteq> ''object'' \<or> strict_eq objA Null
              \<or> typeof_js objB \<noteq> ''object'' \<or> strict_eq objB Null
      then False
      else
        let keysA = Object_keys h objA; keysB = Object_keys h objB in
        if length keysA \<noteq> length keysB then False
        else keys_loop h objA objB keysA 0)"

section \<open>The caller's functions\<close>

text \<open>
  What the caller's functions do is a parameter of the model. \<open>apply_fn E f v h\<close> is the call
  \<^verbatim>\<open>f(v)\<close> of an updater or a picker in heap \<open>h\<close>: its result and the heap after it (it may
  create objects). \<open>fn_props E f\<close> are the own properties of the function \<open>f\<close>, which is an
  object too. \<open>observer E cb prev next\<close> is what observer \<open>cb\<close>, called with
  \<^verbatim>\<open>(prev, next)\<close>, does to the observer list while the notification pass is running:
  a sequence of \<^verbatim>\<open>subscribe\<close> and \<^verbatim>\<open>unsubscribe\<close> calls (calling the function that
  \<^verbatim>\<open>subscribe\<close> returned is an \<^verbatim>\<open>unsubscribe\<close> call). An observer that calls \<^verbatim>\<open>set\<close> or
  \<^verbatim>\<open>update\<close> from inside the pass is outside this model.
\<close>

datatype cmd = Subscribe nat | Unsubscribe nat

record env =
  has_Object_is :: bool
  apply_fn :: "nat \<Rightarrow> jsval \<Rightarrow> heap \<Rightarrow> jsval \<times> heap"
  fn_props :: "nat \<Rightarrow> obj"
  observer :: "nat \<Rightarrow> jsval \<Rightarrow> jsval \<Rightarrow> cmd list"

section \<open>Object spread\<close>

text \<open>
  \<^verbatim>\<open>{...pre, ...input}\<close> creates a new object and copies, source by source, the own enumerable
  properties of each source onto it (ECMAScript's CopyDataProperties). A source that is
  \<^verbatim>\<open>undefined\<close> or \<^verbatim>\<open>null\<close> is skipped. An object or a function gives its own enumerable
  properties; the arrow function of \<^verbatim>\<open>update\<close> has none. Any other source is a primitive and
  is wrapped first, and only a string's wrapper has own enumerable properties: one per index,
  holding that character. No source makes the spread throw.
\<close>

fun digits :: "nat \<Rightarrow> string" where
  \<comment> \<open>an array index as a property name: its decimal digits\<close>
  "digits n =
     (if n < 10 then [char_of (48 + n)]
      else digits (n div 10) @ [char_of (48 + n mod 10)])"

definition spread_props :: "env \<Rightarrow> heap \<Rightarrow> jsval \<Rightarrow> (string \<times> jsval) list" where
  \<comment> \<open>the own enumerable properties that a spread copies from a source\<close>
  "spread_props E h v =
     (case v of
        Str s \<Rightarrow> map (\<lambda>i. (digits i, Str [s ! i])) [0..<length s]
      | Obj a \<Rightarrow> map (\<lambda>p. (pkey p, pval p)) (filter enumerable (props_of h v))
      | Fun f \<Rightarrow>
          (case f of
             User n \<Rightarrow> map (\<lambda>p. (pkey p, pval p)) (filter enumerable (fn_props E n))
           | Merge _ \<Rightarrow> [])
      | _ \<Rightarrow> [])"

fun define_prop :: "obj \<Rightarrow> string \<times> jsval \<Rightarrow> obj" where
  \<comment> \<open>CreateDataProperty on the object under construction: a name it already has keeps its
      place and takes the new value, a new name goes last\<close>
  "define_prop [] (k, v) = [DataProperty k v True]"
| "define_prop (p # ps) (k, v) =
     (if pkey p = k then DataProperty k v True # ps else p # define_prop ps (k, v))"

definition object_spread :: "env \<Rightarrow> heap \<Rightarrow> jsval list \<Rightarrow> jsval \<times> heap" where
  \<comment> \<open>the object literal \<^verbatim>\<open>{...s1, ...s2}\<close>: the new reference and the heap that holds it\<close>
  "object_spread E h sources =
     (let ps = foldl (\<lambda>target src. foldl define_prop target (spread_props E h src)) [] sources
      in (Obj (length h), h @ [ps]))"

section \<open>The container\<close>

text \<open>
  \<^verbatim>\<open>createSharedState\<close> closes over \<^verbatim>\<open>state\<close> and \<^verbatim>\<open>subscribers\<close>; the model passes them
  along explicitly, together with the heap and with \<open>calls\<close>, the record of every observer
  invocation made so far: which observer, and the two arguments it received. Observers are
  functions of the caller, kept by reference.
\<close>

record container =
  state :: jsval
  subscribers :: "nat list"
  heap :: heap
  calls :: "(nat \<times> jsval \<times> jsval) list"

definition createSharedState :: "jsval \<Rightarrow> heap \<Rightarrow> container" where
  "createSharedState initialState h =
     \<lparr>state = initialState, subscribers = [], heap = h, calls = []\<rparr>"

fun indexOf :: "nat list \<Rightarrow> nat \<Rightarrow> int" where
  \<comment> \<open>\<^verbatim>\<open>Array.prototype.indexOf\<close>: the first index holding the reference, or \<open>-1\<close>\<close>
  "indexOf [] x = - 1"
| "indexOf (y # ys) x =
     (if y = x then 0 else (let i = indexOf ys x in if i < 0 then - 1 else i + 1))"

definition splice_js :: "nat list \<Rightarrow> nat \<Rightarrow> nat \<Rightarrow> nat list" where
  \<comment> \<open>\<^verbatim>\<open>xs.splice(start, deleteCount)\<close>, the array it leaves\<close>
  "splice_js xs start deleteCount = take start xs @ drop (start + deleteCount) xs"

definition unsubscribe :: "nat \<Rightarrow> container \<Rightarrow> container" where
  "unsubscribe subscriber c =
     (let index = indexOf (subscribers c) subscriber in
      if index > - 1 then c\<lparr>subscribers := splice_js (subscribers c) (nat index) 1\<rparr> else c)"

definition subscribe :: "nat \<Rightarrow> container \<Rightarrow> (container \<Rightarrow> container) \<times> container" where
  \<comment> \<open>returns the closure \<^verbatim>\<open>() => unsubscribe(subscriber)\<close> and the container after the push\<close>
  "subscribe subscriber c =
     (unsubscribe subscriber, c\<lparr>subscribers := subscribers c @ [subscriber]\<rparr>)"

definition get :: "container \<Rightarrow> jsval" where
  "get c = state c"

definition call_fn :: "env \<Rightarrow> fn \<Rightarrow> jsval \<Rightarrow> heap \<Rightarrow> jsval \<times> heap" where
  \<comment> \<open>calling a function value with one argument\<close>
  "call_fn E f v h =
     (case f of
        User n \<Rightarrow> apply_fn E n v h
      | Merge input \<Rightarrow> object_spread E h [v, input])"

definition exec :: "container \<Rightarrow> cmd \<Rightarrow> container" where
  "exec c x =
     (case x of
        Subscribe n \<Rightarrow> snd (subscribe n c)
      | Unsubscribe n \<Rightarrow> unsubscribe n c)"

definition invoke :: "env \<Rightarrow> nat \<Rightarrow> jsval \<Rightarrow> container \<Rightarrow> container" where
  \<comment> \<open>\<^verbatim>\<open>cb(prevState, state)\<close>: the call is recorded, then the observer's body runs\<close>
  "invoke E cb prevState c =
     foldl exec (c\<lparr>calls := calls c @ [(cb, prevState, state c)]\<rparr>)
       (observer E cb prevState (state c))"

function forEach :: "env \<Rightarrow> jsval \<Rightarrow> nat \<Rightarrow> nat \<Rightarrow> container \<Rightarrow> container" where
  \<comment> \<open>\<^verbatim>\<open>subscribers.forEach((cb) => cb(prevState, state))\<close> from index \<open>k\<close>.
      \<^verbatim>\<open>Array.prototype.forEach\<close> reads the length once, before the first call (\<open>len\<close>), and
      at each index below it calls the element the array holds there at that time, if the
      array still has that index.\<close>
  "forEach E prevState len k c =
     (if k < len then
        (if k < length (subscribers c)
         then forEach E prevState len (k + 1) (invoke E (subscribers c ! k) prevState c)
         else forEach E prevState len (k + 1) c)
      else c)"
  by pat_completeness auto
termination
  by (relation "measure (\<lambda>(E, prevState, len, k, c). len - k)") auto

definition next_state :: "env \<Rightarrow> jsval \<Rightarrow> jsval \<Rightarrow> heap \<Rightarrow> jsval \<times> heap" where
  \<comment> \<open>\<^verbatim>\<open>typeof next === 'function' ? next(prevState) : next\<close>, the candidate, and the heap
      after computing it\<close>
  "next_state E next prevState h =
     (if typeof_js next = ''function'' then call_fn E (the_fn next) prevState h else (next, h))"

definition set_js :: "env \<Rightarrow> jsval \<Rightarrow> container \<Rightarrow> container" where
  "set_js E next c =
     (let prevState = state c;
          (nextState, h) = next_state E next prevState (heap c);
          c = c\<lparr>heap := h\<rparr>
      in if objectIs (has_Object_is E) (state c) nextState then c
         else
           let c = c\<lparr>state := nextState\<rparr>
           in forEach E prevState (length (subscribers c)) 0 c)"

definition update :: "env \<Rightarrow> jsval \<Rightarrow> container \<Rightarrow> container" where
  "update E input c = set_js E (Fun (Merge input)) c"

section \<open>\<^verbatim>\<open>usePick\<close>\<close>

text \<open>
  The hooks belong to the host framework, which is not part of the repository. The model keeps
  what they hold for one component instance: the object of \<^verbatim>\<open>useRef\<close> with its two fields,
  and for \<^verbatim>\<open>useState\<close> the state as of the last render together with the updates enqueued
  since. \<^verbatim>\<open>setPickedState\<close> enqueues an update, which schedules a render of the component;
  the next render takes the state the queue leads to, here the value enqueued last, since
  every update enqueued has the form \<^verbatim>\<open>() => pickedNew\<close>. \<^verbatim>\<open>useCallback(..., [])\<close> keeps the
  first \<^verbatim>\<open>sub\<close>, which reads everything through \<^verbatim>\<open>ref\<close> and the container.
\<close>

record binding =
  ref_picker :: jsval
  ref_oldState :: jsval
  pickedState :: jsval
  pending :: "jsval list"

definition setPickedState :: "jsval \<Rightarrow> binding \<Rightarrow> binding" where
  \<comment> \<open>\<^verbatim>\<open>setPickedState(() => v)\<close>\<close>
  "setPickedState v b = b\<lparr>pending := pending b @ [v]\<rparr>"

definition sub :: "env \<Rightarrow> binding \<Rightarrow> container \<Rightarrow> binding \<times> container" where
  \<comment> \<open>the observer that \<^verbatim>\<open>usePick\<close> subscribes; the picker, typed as a function, is a
      function of the caller and may create objects\<close>
  "sub E b c =
     (let pickedOld = ref_oldState b;
          (pickedNew, h) = call_fn E (the_fn (ref_picker b)) (state c) (heap c);
          c = c\<lparr>heap := h\<rparr>
      in if \<not> shallowEqual h pickedOld pickedNew then (setPickedState pickedNew b, c)
         else (b, c))"

definition usePick :: "env \<Rightarrow> jsval \<Rightarrow> binding option \<Rightarrow> container \<Rightarrow> jsval \<times> binding \<times> container" where
  \<comment> \<open>one render of the component: \<open>None\<close> is the first render of the instance, where
      \<^verbatim>\<open>useRef\<close> and \<^verbatim>\<open>useState\<close> initialise; the result is what \<^verbatim>\<open>usePick\<close> returns,
      the instance after the render and the container (the first render calls the picker)\<close>
  "usePick E picker inst c =
     (case inst of
        None \<Rightarrow>
          (let (initial, h) = call_fn E (the_fn picker) (state c) (heap c)
           in (initial,
               \<lparr>ref_picker = picker, ref_oldState = initial, pickedState = initial, pending = []\<rparr>,
               c\<lparr>heap := h\<rparr>))
      | Some b \<Rightarrow>
          (let b = b\<lparr>ref_picker := picker\<rparr>;
               current = (if pending b = [] then pickedState b else last (pending b));
               b = b\<lparr>pickedState := current, pending := []\<rparr>;
               b = b\<lparr>ref_oldState := current\<rparr>
           in (current, b, c)))"

section \<open>Sequences of \<^verbatim>\<open>set\<close> calls, as the specification words them\<close>


section \<open>Example hosts and containers\<close>

definition double_1 :: "64 word" where
  \<comment> \<open>the double 1\<close>
  "double_1 = 0x3FF0000000000000"

definition double_2 :: "64 word" where
  "double_2 = 0x4000000000000000"


definition double_NaN :: "64 word" where
  "double_NaN = 0x7FF8000000000000"

definition double_neg_0 :: "64 word" where
  \<comment> \<open>\<open>-0\<close>; \<open>+0\<close> is the word 0\<close>
  "double_neg_0 = 0x8000000000000000"

definition host :: env where
  \<comment> \<open>function 0 is \<^verbatim>\<open>(s) => s\<close>, function 1 is \<^verbatim>\<open>() => f2\<close> with \<^verbatim>\<open>f2\<close> the function
      of reference 2, function 3 is \<^verbatim>\<open>(s) => s.a\<close>, function 4 is \<^verbatim>\<open>(s) => ({a: s.a})\<close>,
      every other function returns \<^verbatim>\<open>undefined\<close>; function 5 has the property \<^verbatim>\<open>x = 1\<close>,
      as after \<^verbatim>\<open>f5.x = 1\<close>, the others have no enumerable property; no observer touches the
      observer list\<close>
  "host =
     \<lparr>has_Object_is = True,
      apply_fn = (\<lambda>n v h.
         if n = 0 then (v, h)
         else if n = 1 then (Fun (User 2), h)
         else if n = 3 then (get_prop h v ''a'', h)
         else if n = 4 then (Obj (length h), h @ [[DataProperty ''a'' (get_prop h v ''a'') True]])
         else (Undefined, h)),
      fn_props = (\<lambda>n. if n = 5 then [DataProperty ''x'' (Num double_1) True] else []),
      observer = (\<lambda>cb prev next. [])\<rparr>"

definition polyfill_host :: env where
  \<comment> \<open>the same on a host without \<^verbatim>\<open>Object.is\<close>\<close>
  "polyfill_host = host\<lparr>has_Object_is := False\<rparr>"

definition one_shot_host :: env where
  \<comment> \<open>observer 0 listens once: when called it unsubscribes itself\<close>
  "one_shot_host =
     host\<lparr>observer := (\<lambda>cb prev next. if cb = 0 then [Unsubscribe 0] else [])\<rparr>"

definition empty_container :: container where
  "empty_container = createSharedState Undefined []"

definition twice_subscribed :: container where
  \<comment> \<open>after \<^verbatim>\<open>subscribe(f); subscribe(f)\<close> with the same function \<open>f\<close>, reference 7\<close>
  "twice_subscribed = snd (subscribe 7 (snd (subscribe 7 empty_container)))"

definition three_observers :: container where
  "three_observers = \<lparr>state = Null, subscribers = [3, 5, 3], heap = [], calls = []\<rparr>"

definition counter :: container where
  \<comment> \<open>\<^verbatim>\<open>createSharedState(0)\<close> with two observers\<close>
  "counter = \<lparr>state = Num 0, subscribers = [0, 1], heap = [], calls = []\<rparr>"

definition nan_box :: container where
  "nan_box = \<lparr>state = Num double_NaN, subscribers = [0, 1], heap = [], calls = []\<rparr>"


definition array_like_heap :: heap where
  \<comment> \<open>\<^verbatim>\<open>{length: 1}\<close> and the array \<^verbatim>\<open>['x']\<close>\<close>
  "array_like_heap =
     [[DataProperty ''length'' (Num double_1) True],
      [DataProperty ''0'' (Str ''x'') True, DataProperty ''length'' (Num double_1) False]]"

definition records_heap :: heap where
  \<comment> \<open>\<^verbatim>\<open>{a: 1, b: NaN}\<close>, \<^verbatim>\<open>{b: NaN, a: 1}\<close> and \<^verbatim>\<open>{a: 1, c: NaN}\<close>, then two arrays
      \<^verbatim>\<open>['x']\<close>\<close>
  "records_heap =
     [[DataProperty ''a'' (Num double_1) True, DataProperty ''b'' (Num double_NaN) True],
      [DataProperty ''b'' (Num double_NaN) True, DataProperty ''a'' (Num double_1) True],
      [DataProperty ''a'' (Num double_1) True, DataProperty ''c'' (Num double_NaN) True],
      [DataProperty ''0'' (Str ''x'') True, DataProperty ''length'' (Num double_1) False],
      [DataProperty ''0'' (Str ''x'') True, DataProperty ''length'' (Num double_1) False]]"



definition profile :: container where
  \<comment> \<open>holds \<^verbatim>\<open>{a: 1, b: 2}\<close>; the heap also has \<^verbatim>\<open>{a: 2}\<close> and \<^verbatim>\<open>{a: 1}\<close>\<close>
  "profile =
     \<lparr>state = Obj 0, subscribers = [],
      heap = [[DataProperty ''a'' (Num double_1) True, DataProperty ''b'' (Num double_2) True],
              [DataProperty ''a'' (Num double_2) True],
              [DataProperty ''a'' (Num double_1) True]],
      calls = []\<rparr>"

definition first_render :: "jsval \<times> binding \<times> container" where
  \<comment> \<open>the first render of a component that calls \<^verbatim>\<open>usePick((s) => s.a)\<close>\<close>
  "first_render = usePick host (Fun (User 3)) None profile"

definition profile_a2 :: container where
  \<comment> \<open>the container after \<^verbatim>\<open>update({a: 2})\<close>\<close>
  "profile_a2 = update host (Obj 1) profile"

definition profile_a1 :: container where
  \<comment> \<open>and after \<^verbatim>\<open>update({a: 1})\<close> next\<close>
  "profile_a1 = update host (Obj 2) profile_a2"

definition binding_a2 :: binding where
  \<comment> \<open>the instance after the observer ran for the first update, with no render since\<close>
  "binding_a2 = fst (sub host (fst (snd first_render)) profile_a2)"

definition binding_a1 :: binding where
  \<comment> \<open>and after it ran for the second update, still with no render\<close>
  "binding_a1 = fst (sub host binding_a2 profile_a1)"

section \<open>The polyfill is SameValue\<close>

lemma strict_eq_zero_iff: "strict_eq x (Num 0) \<longleftrightarrow> (\<exists>w. x = Num w \<and> isZero64 w)"
  by (cases x) (auto simp: strict_eq_def isZero64_def isNaN64_def)

lemma is_js_Num:
  "is_js (Num a) (Num b) \<longleftrightarrow> (isNaN64 a \<and> isNaN64 b) \<or> a = b"
  by (auto simp: is_js_def strict_eq_def one_over_def isZero64_def isNaN64_def)

lemma is_js_Object_is: "is_js x y = Object_is x y"
proof (cases "\<exists>a b. x = Num a \<and> y = Num b")
  case True
  then show ?thesis
    by (auto simp: is_js_Num Object_is_def)
next
  case False
  then have "strict_eq x y = (x = y)" "Object_is x y = (x = y)"
    by (auto simp: strict_eq_def Object_is_def split: jsval.splits)
  moreover have "x = y \<Longrightarrow> \<not> strict_eq x (Num 0)"
    using False by (auto simp: strict_eq_zero_iff)
  moreover have "x \<noteq> y \<Longrightarrow> strict_eq x x \<or> strict_eq y y"
    using False by (cases x; cases y) (auto simp: strict_eq_def)
  ultimately show ?thesis
    by (auto simp: is_js_def)
qed

lemma objectIs_Object_is: "objectIs e x y = Object_is x y"
  by (simp add: objectIs_def is_js_Object_is)

section \<open>The observer list\<close>

lemma indexOf_absent: "x \<notin> set xs \<Longrightarrow> indexOf xs x = - 1"
  by (induction xs) (auto simp: Let_def)

lemma indexOf_first: "x \<notin> set ys \<Longrightarrow> indexOf (ys @ x # zs) x = int (length ys)"
  by (induction ys) (auto simp: Let_def)

lemma splice_js_first: "splice_js (ys @ x # zs) (length ys) (Suc 0) = ys @ zs"
  by (simp add: splice_js_def)

lemma unsubscribe_absent: "x \<notin> set (subscribers c) \<Longrightarrow> unsubscribe x c = c"
  by (simp add: unsubscribe_def indexOf_absent)

lemma unsubscribe_first:
  "subscribers c = ys @ x # zs \<Longrightarrow> x \<notin> set ys \<Longrightarrow> unsubscribe x c = c\<lparr>subscribers := ys @ zs\<rparr>"
  by (simp add: unsubscribe_def indexOf_first splice_js_first)

lemma subscribers_unsubscribe: "subscribers (unsubscribe x c) = remove1 x (subscribers c)"
proof (cases "x \<in> set (subscribers c)")
  case True
  then obtain ys zs where "subscribers c = ys @ x # zs" "x \<notin> set ys"
    by (auto dest: split_list_first)
  then show ?thesis
    by (simp add: unsubscribe_first remove1_append)
next
  case False
  then show ?thesis by (simp add: unsubscribe_absent remove1_idem)
qed

lemma unsubscribe_frame:
  "state (unsubscribe x c) = state c" "heap (unsubscribe x c) = heap c"
  "calls (unsubscribe x c) = calls c"
  by (simp_all add: unsubscribe_def Let_def)

lemma length_remove1_less: "x \<in> set xs \<Longrightarrow> length (remove1 x xs) < length xs"
  by (induction xs) auto

text \<open>
  Claim C5. \<^verbatim>\<open>unsubscribe(observer)\<close> removes the first entry of the observer list that is the
  reference \<open>cb\<close>: the list splits into the entries before it, none of them \<open>cb\<close>, and the
  entries after it, and both parts stay as they are, in order. When no entry is \<open>cb\<close> the
  container is left as it is. Nothing but the list changes.
\<close>

theorem unsubscribe_removes_first:
  "(cb \<notin> set (subscribers c) \<longrightarrow> unsubscribe cb c = c) \<and>
   (cb \<in> set (subscribers c) \<longrightarrow>
      (\<exists>ys zs. subscribers c = ys @ cb # zs \<and> cb \<notin> set ys \<and>
               unsubscribe cb c = c\<lparr>subscribers := ys @ zs\<rparr>)) \<and>
   subscribers (unsubscribe cb c) = remove1 cb (subscribers c)"
proof (intro conjI impI)
  assume "cb \<notin> set (subscribers c)"
  then show "unsubscribe cb c = c" by (rule unsubscribe_absent)
next
  assume "cb \<in> set (subscribers c)"
  then obtain ys zs where parts: "subscribers c = ys @ cb # zs" "cb \<notin> set ys"
    by (auto dest: split_list_first)
  then have "unsubscribe cb c = c\<lparr>subscribers := ys @ zs\<rparr>"
    by (rule unsubscribe_first)
  with parts show "\<exists>ys zs. subscribers c = ys @ cb # zs \<and> cb \<notin> set ys \<and>
               unsubscribe cb c = c\<lparr>subscribers := ys @ zs\<rparr>"
    by blast
next
  show "subscribers (unsubscribe cb c) = remove1 cb (subscribers c)"
    by (rule subscribers_unsubscribe)
qed

theorem unsubscribe_removes_first_witness:
  "subscribers three_observers = [3, 5, 3] \<and>
   subscribers (unsubscribe 3 three_observers) = [5, 3] \<and>
   subscribers (unsubscribe 5 three_observers) = [3, 3] \<and>
   subscribers (unsubscribe 4 three_observers) = [3, 5, 3]"
  using unsubscribe_removes_first [of 3 three_observers]
    unsubscribe_removes_first [of 5 three_observers]
    unsubscribe_removes_first [of 4 three_observers]
  by (simp add: three_observers_def)

text \<open>
  Claim C4, as stated, fails: the function that \<^verbatim>\<open>subscribe(cb)\<close> returns is
  \<^verbatim>\<open>() => unsubscribe(subscriber)\<close>, with nothing that remembers it has run. When the same
  function was subscribed twice, the second invocation removes the second entry.
\<close>

theorem returned_unsubscribe_twice_counterexample:
  "subscribers twice_subscribed = [7, 7] \<and>
   subscribers (fst (subscribe 7 empty_container) twice_subscribed) = [7] \<and>
   subscribers (fst (subscribe 7 empty_container)
                  (fst (subscribe 7 empty_container) twice_subscribed)) = []"
  by (simp add: twice_subscribed_def empty_container_def createSharedState_def subscribe_def
      unsubscribe_def splice_js_def)

text \<open>
  Claim C4, amended. The function returned by \<^verbatim>\<open>subscribe(cb)\<close> is \<^verbatim>\<open>unsubscribe(cb)\<close> at
  every invocation, the first and any later one: it leaves the container as it is exactly
  when the list holds no entry that is \<open>cb\<close> at that time, and otherwise removes the first
  such entry and nothing else. In particular, when \<open>cb\<close> was not in the list before
  \<^verbatim>\<open>subscribe(cb)\<close>, the first invocation after it restores the list, and an invocation on
  the restored list removes nothing.
\<close>

theorem returned_unsubscribe_noop_iff:
  "(fst (subscribe cb c0) c = c \<longleftrightarrow> cb \<notin> set (subscribers c)) \<and>
   fst (subscribe cb c0) c = c\<lparr>subscribers := remove1 cb (subscribers c)\<rparr> \<and>
   (cb \<notin> set (subscribers c) \<longrightarrow>
      fst (subscribe cb c) (snd (subscribe cb c)) = c \<and>
      fst (subscribe cb c) (fst (subscribe cb c) (snd (subscribe cb c))) = c)"
proof -
  have un: "fst (subscribe cb c') = unsubscribe cb" for c'
    by (simp add: subscribe_def)
  have rm: "unsubscribe cb c' = c'\<lparr>subscribers := remove1 cb (subscribers c')\<rparr>" for c'
  proof (cases "cb \<in> set (subscribers c')")
    case True
    then obtain ys zs where "subscribers c' = ys @ cb # zs" "cb \<notin> set ys"
      by (auto dest: split_list_first)
    then show ?thesis
      by (simp add: unsubscribe_first remove1_append)
  next
    case False
    then show ?thesis by (simp add: unsubscribe_absent remove1_idem)
  qed
  have "unsubscribe cb c \<noteq> c" if "cb \<in> set (subscribers c)"
  proof
    assume "unsubscribe cb c = c"
    then have "subscribers (unsubscribe cb c) = subscribers c" by simp
    then have "length (remove1 cb (subscribers c)) = length (subscribers c)"
      by (simp add: subscribers_unsubscribe)
    with length_remove1_less [OF that] show False by simp
  qed
  then have iff: "unsubscribe cb c = c \<longleftrightarrow> cb \<notin> set (subscribers c)"
    using unsubscribe_absent [of cb c] by blast
  have restored: "unsubscribe cb (snd (subscribe cb c)) = c" if "cb \<notin> set (subscribers c)"
  proof -
    have "unsubscribe cb (snd (subscribe cb c))
            = (snd (subscribe cb c))\<lparr>subscribers := subscribers c @ []\<rparr>"
      using that by (intro unsubscribe_first) (simp_all add: subscribe_def)
    then show ?thesis by (simp add: subscribe_def)
  qed
  show ?thesis
    using iff rm [of c] restored unsubscribe_absent [of cb c] by (simp add: un)
qed

theorem returned_unsubscribe_noop_iff_witness:
  "5 \<in> set (subscribers three_observers) \<and>
   subscribers (fst (subscribe 5 empty_container) three_observers) = [3, 3] \<and>
   fst (subscribe 5 empty_container) (fst (subscribe 5 empty_container) three_observers)
     = fst (subscribe 5 empty_container) three_observers \<and>
   subscribers (fst (subscribe 3 empty_container) (fst (subscribe 3 empty_container) three_observers))
     = [5] \<and>
   fst (subscribe 4 three_observers) (snd (subscribe 4 three_observers)) = three_observers"
proof -
  have a: "subscribers (fst (subscribe 5 empty_container) three_observers) = [3, 3]"
    using returned_unsubscribe_noop_iff
      [where cb = 5 and ?c0.0 = empty_container and c = three_observers]
    by (simp add: three_observers_def)
  have b: "fst (subscribe 5 empty_container) (fst (subscribe 5 empty_container) three_observers)
     = fst (subscribe 5 empty_container) three_observers"
    using a returned_unsubscribe_noop_iff
      [where cb = 5 and ?c0.0 = empty_container
         and c = "fst (subscribe 5 empty_container) three_observers"]
    by simp
  have c: "subscribers (fst (subscribe 3 empty_container) three_observers) = [5, 3]"
    using returned_unsubscribe_noop_iff
      [where cb = 3 and ?c0.0 = empty_container and c = three_observers]
    by (simp add: three_observers_def)
  have d: "subscribers (fst (subscribe 3 empty_container) (fst (subscribe 3 empty_container) three_observers))
     = [5]"
    using c returned_unsubscribe_noop_iff
      [where cb = 3 and ?c0.0 = empty_container
         and c = "fst (subscribe 3 empty_container) three_observers"]
    by simp
  have e: "fst (subscribe 4 three_observers) (snd (subscribe 4 three_observers)) = three_observers"
    using returned_unsubscribe_noop_iff
      [where cb = 4 and ?c0.0 = empty_container and c = three_observers]
    by (simp add: three_observers_def)
  from a b d e show ?thesis
    by (simp add: three_observers_def)
qed

section \<open>The notification pass\<close>

declare forEach.simps [simp del]

lemma exec_frame:
  "state (exec c x) = state c" "heap (exec c x) = heap c" "calls (exec c x) = calls c"
  by (simp_all add: exec_def subscribe_def unsubscribe_frame split: cmd.splits)

lemma foldl_exec_frame:
  "state (foldl exec c xs) = state c" "heap (foldl exec c xs) = heap c"
  "calls (foldl exec c xs) = calls c"
  by (induction xs arbitrary: c) (simp_all add: exec_frame)

lemma invoke_frame:
  "state (invoke E cb p c) = state c" "heap (invoke E cb p c) = heap c"
  "calls (invoke E cb p c) = calls c @ [(cb, p, state c)]"
  by (simp_all add: invoke_def foldl_exec_frame)

text \<open>Whatever the observers do to the list, the pass leaves the value and the heap alone.\<close>

lemma forEach_frame:
  "state (forEach E p len k c) = state c \<and> heap (forEach E p len k c) = heap c"
proof (induction E p len k c rule: forEach.induct)
  case (1 E p len k c)
  then show ?case
    by (subst (1 2) forEach.simps) (simp add: invoke_frame)
qed

lemma invoke_quiet:
  "observer E cb p (state c) = [] \<Longrightarrow>
   invoke E cb p c = c\<lparr>calls := calls c @ [(cb, p, state c)]\<rparr>"
  by (simp add: invoke_def)

text \<open>
  When no observer of the list touches the list, the pass calls the entries from index \<open>k\<close>
  on, each once, in order.
\<close>

lemma forEach_quiet:
  "\<forall>cb\<in>set (subscribers c). observer E cb p (state c) = [] \<Longrightarrow>
   len = length (subscribers c) \<Longrightarrow>
   forEach E p len k c
     = c\<lparr>calls := calls c @ map (\<lambda>cb. (cb, p, state c)) (drop k (subscribers c))\<rparr>"
proof (induction E p len k c rule: forEach.induct)
  case (1 E p len k c)
  show ?case
  proof (cases "k < len")
    case True
    let ?cb = "subscribers c ! k"
    let ?c' = "c\<lparr>calls := calls c @ [(?cb, p, state c)]\<rparr>"
    from True 1(4) have k: "k < length (subscribers c)" by simp
    then have "?cb \<in> set (subscribers c)" by simp
    with 1(3) have called: "invoke E ?cb p c = ?c'" by (simp add: invoke_quiet)
    have "forEach E p len (k + 1) ?c'
        = ?c'\<lparr>calls := calls ?c' @ map (\<lambda>cb. (cb, p, state ?c')) (drop (k + 1) (subscribers ?c'))\<rparr>"
      using 1(1) [OF True k] 1(3,4) called by simp
    with called show ?thesis
      using True k by (subst forEach.simps) (simp add: Cons_nth_drop_Suc [symmetric])
  next
    case False
    with 1(4) show ?thesis by (subst forEach.simps) simp
  qed
qed

section \<open>\<^verbatim>\<open>set\<close>\<close>

lemma set_js_same:
  "Object_is (state c) (fst (next_state E next (state c) (heap c))) \<Longrightarrow>
   set_js E next c = c\<lparr>heap := snd (next_state E next (state c) (heap c))\<rparr>"
  by (simp add: set_js_def objectIs_Object_is Let_def case_prod_beta)

lemma set_js_changed:
  "\<not> Object_is (state c) (fst (next_state E next (state c) (heap c))) \<Longrightarrow>
   set_js E next c
     = forEach E (state c) (length (subscribers c)) 0
         (c\<lparr>heap := snd (next_state E next (state c) (heap c)),
            state := fst (next_state E next (state c) (heap c))\<rparr>)"
  by (simp add: set_js_def objectIs_Object_is Let_def case_prod_beta)

lemma set_js_quiet:
  assumes "next_state E next (state c) (heap c) = (candidate, h)"
    and "\<not> Object_is (state c) candidate"
    and "\<forall>cb\<in>set (subscribers c). observer E cb (state c) candidate = []"
  shows "set_js E next c
           = c\<lparr>state := candidate, heap := h,
               calls := calls c @ map (\<lambda>cb. (cb, state c, candidate)) (subscribers c)\<rparr>"
  using assms by (simp add: set_js_changed forEach_quiet)

lemma set_js_frame:
  "state (set_js E next c)
     = (if Object_is (state c) (fst (next_state E next (state c) (heap c))) then state c
        else fst (next_state E next (state c) (heap c)))"
  "heap (set_js E next c) = snd (next_state E next (state c) (heap c))"
  by (cases "Object_is (state c) (fst (next_state E next (state c) (heap c)))";
      simp add: set_js_same set_js_changed forEach_frame)+

text \<open>
  Claim C1. When the candidate of a \<^verbatim>\<open>set\<close> call (the argument, or what the updater returns
  for the current value) is SameValue-equal to the current value, \<^verbatim>\<open>get()\<close> returns after the
  call what it returned before, no observer has been called, and the observer list is as it
  was. This holds on a host with \<^verbatim>\<open>Object.is\<close> and on one that falls back to the polyfill.
\<close>

theorem set_same_value_noop:
  assumes "Object_is (get c) (fst (next_state E next (get c) (heap c)))"
  shows "get (set_js E next c) = get c \<and> calls (set_js E next c) = calls c
         \<and> subscribers (set_js E next c) = subscribers c"
  using assms by (simp add: set_js_same get_def)

theorem set_same_value_noop_witness:
  "Object_is (get nan_box) (fst (next_state polyfill_host (Num double_NaN) (get nan_box) (heap nan_box)))
   \<and> get (set_js polyfill_host (Num double_NaN) nan_box) = Num double_NaN
   \<and> calls (set_js polyfill_host (Num double_NaN) nan_box) = []
   \<and> Object_is (get counter) (fst (next_state host (Fun (User 0)) (get counter) (heap counter)))
   \<and> get (set_js host (Fun (User 0)) counter) = Num 0
   \<and> calls (set_js host (Fun (User 0)) counter) = []"
proof -
  have a: "Object_is (get nan_box)
      (fst (next_state polyfill_host (Num double_NaN) (get nan_box) (heap nan_box)))"
    by (simp add: next_state_def typeof_js_def Object_is_def get_def nan_box_def)
  have b: "Object_is (get counter) (fst (next_state host (Fun (User 0)) (get counter) (heap counter)))"
    by (simp add: next_state_def typeof_js_def call_fn_def host_def Object_is_def get_def
        counter_def)
  from a b set_same_value_noop [OF a] set_same_value_noop [OF b] show ?thesis
    by (simp add: get_def nan_box_def counter_def)
qed

text \<open>
  Claim C2, as stated, fails: \<^verbatim>\<open>forEach\<close> walks the live array. With the observers
  \<open>[0, 1]\<close> subscribed, where observer 0 unsubscribes itself when called, \<^verbatim>\<open>set(1)\<close> on the
  value 0 stores 1 and calls observer 0; the array is then \<open>[1]\<close>, index 1 is gone, and
  observer 1, subscribed when \<^verbatim>\<open>set\<close> was called, is never called.
\<close>

theorem set_one_shot_counterexample:
  "subscribers counter = [0, 1] \<and> \<not> Object_is (get counter) (Num double_1) \<and>
   get (set_js one_shot_host (Num double_1) counter) = Num double_1 \<and>
   calls (set_js one_shot_host (Num double_1) counter) = [(0, Num 0, Num double_1)]"
  by (simp add: set_js_def next_state_def typeof_js_def objectIs_def Object_is_def get_def
      isNaN64_def double_1_def counter_def one_shot_host_def host_def forEach.simps invoke_def
      exec_def unsubscribe_def splice_js_def)

text \<open>
  Claim C2, amended. When the candidate of a \<^verbatim>\<open>set\<close> call is not SameValue-equal to the
  current value, and no observer of the list subscribes or unsubscribes anything when called
  with the previous and the new value, then \<^verbatim>\<open>set\<close> stores the candidate and, before it
  returns, has called every observer of the list once, in subscription order, each with the
  previous value and the value just stored. Nothing else changes but the heap, by what the
  updater allocated.
\<close>

theorem set_changed_notifies:
  assumes "next_state E next (get c) (heap c) = (candidate, h)"
    and "\<not> Object_is (get c) candidate"
    and "\<forall>cb\<in>set (subscribers c). observer E cb (get c) candidate = []"
  shows "set_js E next c
           = c\<lparr>state := candidate, heap := h,
               calls := calls c @ map (\<lambda>cb. (cb, get c, candidate)) (subscribers c)\<rparr>"
  using assms unfolding get_def by (rule set_js_quiet)

theorem set_changed_notifies_witness:
  "next_state host (Num double_neg_0) (get counter) (heap counter) = (Num double_neg_0, [])
   \<and> \<not> Object_is (get counter) (Num double_neg_0)
   \<and> set_js host (Num double_neg_0) counter
       = \<lparr>state = Num double_neg_0, subscribers = [0, 1], heap = [],
          calls = [(0, Num 0, Num double_neg_0), (1, Num 0, Num double_neg_0)]\<rparr>"
proof -
  have a: "next_state host (Num double_neg_0) (get counter) (heap counter) = (Num double_neg_0, [])"
    by (simp add: next_state_def typeof_js_def counter_def)
  have b: "\<not> Object_is (get counter) (Num double_neg_0)"
    by (simp add: Object_is_def get_def counter_def double_neg_0_def isNaN64_def)
  have c: "\<forall>cb\<in>set (subscribers counter). observer host cb (get counter) (Num double_neg_0) = []"
    by (simp add: host_def)
  from a b set_changed_notifies [OF a b c] show ?thesis
    by (simp add: get_def counter_def)
qed



text \<open>
  Claim C10. \<^verbatim>\<open>set\<close> looks at \<^verbatim>\<open>typeof next\<close>: an argument that is a function is called
  with the current value and its result is the candidate; any other argument is the candidate
  itself. So after \<^verbatim>\<open>set(f)\<close> with a function \<open>f\<close> the stored value is the old value or what
  \<open>f\<close> returned, and it is \<open>f\<close> only if \<open>f\<close> was stored already or \<open>f\<close> returned itself.
\<close>

theorem set_function_is_updater:
  "(typeof_js next = ''function'' \<longrightarrow>
      next_state E next (get c) (heap c) = call_fn E (the_fn next) (get c) (heap c)) \<and>
   (typeof_js next \<noteq> ''function'' \<longrightarrow> next_state E next (get c) (heap c) = (next, heap c)) \<and>
   get (set_js E (Fun f) c)
     = (if Object_is (get c) (fst (call_fn E f (get c) (heap c))) then get c
        else fst (call_fn E f (get c) (heap c))) \<and>
   (get (set_js E (Fun f) c) = Fun f \<longrightarrow>
      get c = Fun f \<or> fst (call_fn E f (get c) (heap c)) = Fun f)"
  by (simp add: next_state_def get_def set_js_frame typeof_js_def)

theorem set_function_is_updater_witness:
  "typeof_js (Fun (User 1)) = ''function'' \<and> typeof_js (Str ''f'') \<noteq> ''function'' \<and>
   next_state host (Str ''f'') (get counter) (heap counter) = (Str ''f'', []) \<and>
   next_state host (Fun (User 1)) (get counter) (heap counter) = (Fun (User 2), []) \<and>
   get (set_js host (Fun (User 1)) counter) = Fun (User 2)"
  using set_function_is_updater
      [where E = host and c = counter and ?next = "Fun (User 1)" and f = "User 1"]
    set_function_is_updater
      [where E = host and c = counter and ?next = "Str ''f''" and f = "User 1"]
  by (simp add: typeof_js_def call_fn_def host_def counter_def get_def Object_is_def)

section \<open>\<^verbatim>\<open>update\<close>\<close>

lemma next_state_Merge:
  "next_state E (Fun (Merge input)) v h = (Obj (length h), snd (object_spread E h [v, input]))"
  by (simp add: next_state_def typeof_js_def call_fn_def object_spread_def Let_def)

lemma Object_is_fresh:
  "(\<forall>a. v = Obj a \<longrightarrow> a < length h) \<Longrightarrow> \<not> Object_is v (Obj (length h))"
  by (cases v) (auto simp: Object_is_def)

lemma update_frame:
  "(\<forall>a. state c = Obj a \<longrightarrow> a < length (heap c)) \<Longrightarrow>
   state (update E partial c) = Obj (length (heap c)) \<and>
   heap (update E partial c) = snd (object_spread E (heap c) [state c, partial])"
  by (simp add: update_def set_js_frame next_state_Merge Object_is_fresh)



lemma find_define_prop:
  "find (\<lambda>p. pkey p = k) (define_prop ps (k', v))
     = (if k = k' then Some (DataProperty k' v True) else find (\<lambda>p. pkey p = k) ps)"
  by (induction ps) auto

lemma find_foldl_define_prop:
  "find (\<lambda>p. pkey p = k) (foldl define_prop ps kvs)
     = (case map_of (rev kvs) k of
          Some v \<Rightarrow> Some (DataProperty k v True)
        | None \<Rightarrow> find (\<lambda>p. pkey p = k) ps)"
proof (induction kvs rule: rev_induct)
  case Nil
  show ?case by simp
next
  case (snoc kv kvs)
  then show ?case
    by (cases kv) (simp add: find_define_prop)
qed

lemma find_distinct_key:
  "distinct (map pkey ps) \<Longrightarrow> p \<in> set ps \<Longrightarrow> find (\<lambda>q. pkey q = pkey p) ps = Some p"
  by (induction ps) (auto simp: rev_image_eqI)

lemma spread_lookup:
  assumes "wf_obj (props_of h (Obj a))"
  shows "map_of (rev (spread_props E h (Obj a))) k
           = (if k \<in> set (Object_keys h (Obj a)) then Some (get_prop h (Obj a) k) else None)"
proof (cases "k \<in> set (Object_keys h (Obj a))")
  case True
  then obtain p where p: "p \<in> set (props_of h (Obj a))" "enumerable p" "pkey p = k"
    by (auto simp: Object_keys_def)
  from assms have d: "distinct (map pkey (props_of h (Obj a)))"
    by (simp add: wf_obj_def)
  then have "distinct (map fst (rev (spread_props E h (Obj a))))"
    by (simp add: spread_props_def rev_map [symmetric] comp_def distinct_map_filter)
  moreover have "(k, pval p) \<in> set (rev (spread_props E h (Obj a)))"
    using p by (auto simp: spread_props_def)
  ultimately have "map_of (rev (spread_props E h (Obj a))) k = Some (pval p)"
    by simp
  moreover have "get_prop h (Obj a) k = pval p"
    using find_distinct_key [OF d p(1)] p(3) by (simp add: get_prop_def)
  ultimately show ?thesis using True by simp
next
  case False
  then have "k \<notin> fst ` set (rev (spread_props E h (Obj a)))"
    by (auto simp: spread_props_def Object_keys_def)
  then have "map_of (rev (spread_props E h (Obj a))) k = None"
    by (simp add: map_of_eq_None_iff)
  with False show ?thesis by simp
qed

text \<open>
  The object that \<^verbatim>\<open>update\<close> stores is the shallow merge: a name that \<open>partial\<close> has
  (enumerable) reads as in \<open>partial\<close>, any other name that the current object has reads as in
  the current object, and there are no other names.
\<close>

lemma update_merges:
  assumes "get c = Obj a" and "a < length (heap c)"
    and "wf_obj (props_of (heap c) (Obj a))" and "wf_obj (props_of (heap c) (Obj p))"
  shows "get_prop (heap (update E (Obj p) c)) (get (update E (Obj p) c)) k
           = (if k \<in> set (Object_keys (heap c) (Obj p)) then get_prop (heap c) (Obj p) k
              else if k \<in> set (Object_keys (heap c) (Obj a)) then get_prop (heap c) (Obj a) k
              else Undefined)"
proof -
  have cur: "state c = Obj a" using assms(1) by (simp add: get_def)
  with assms(2) have "state (update E (Obj p) c) = Obj (length (heap c))"
    "heap (update E (Obj p) c) = snd (object_spread E (heap c) [state c, Obj p])"
    by (simp_all add: update_frame)
  then have "get_prop (heap (update E (Obj p) c)) (get (update E (Obj p) c)) k
      = (case find (\<lambda>q. pkey q = k)
               (foldl define_prop (foldl define_prop [] (spread_props E (heap c) (Obj a)))
                  (spread_props E (heap c) (Obj p))) of
           None \<Rightarrow> Undefined | Some q \<Rightarrow> pval q)"
    by (simp add: get_def get_prop_def props_of_def object_spread_def cur)
  then show ?thesis
    by (simp add: find_foldl_define_prop spread_lookup [OF assms(3)] spread_lookup [OF assms(4)])
qed







section \<open>\<^verbatim>\<open>shallowEqual\<close>\<close>

declare keys_loop.simps [simp del]

lemma keys_loop_iff:
  "keys_loop h objA objB keysA i \<longleftrightarrow>
     (\<forall>j. i \<le> j \<and> j < length keysA \<longrightarrow>
          hasOwnProperty h objB (keysA ! j) \<and>
          Object_is (get_prop h objA (keysA ! j)) (get_prop h objB (keysA ! j)))"
proof (induction h objA objB keysA i rule: keys_loop.induct)
  case (1 h objA objB keysA i)
  show ?case
  proof (cases "i < length keysA")
    case False
    then show ?thesis by (subst keys_loop.simps) auto
  next
    case True
    let ?ok = "hasOwnProperty h objB (keysA ! i) \<and>
          Object_is (get_prop h objA (keysA ! i)) (get_prop h objB (keysA ! i))"
    show ?thesis
    proof (cases ?ok)
      case False
      with True show ?thesis
        by (subst keys_loop.simps) (auto simp: is_js_Object_is)
    next
      case ok: True
      then have "keys_loop h objA objB keysA i = keys_loop h objA objB keysA (i + 1)"
        using True by (subst keys_loop.simps) (simp add: is_js_Object_is)
      also have "\<dots> \<longleftrightarrow> (\<forall>j. i + 1 \<le> j \<and> j < length keysA \<longrightarrow>
          hasOwnProperty h objB (keysA ! j) \<and>
          Object_is (get_prop h objA (keysA ! j)) (get_prop h objB (keysA ! j)))"
        using 1 True ok by (simp add: is_js_Object_is)
      also have "\<dots> \<longleftrightarrow> (\<forall>j. i \<le> j \<and> j < length keysA \<longrightarrow>
          hasOwnProperty h objB (keysA ! j) \<and>
          Object_is (get_prop h objA (keysA ! j)) (get_prop h objB (keysA ! j)))"
      proof -
        have "i \<le> j \<longleftrightarrow> j = i \<or> i + 1 \<le> j" for j by arith
        with ok show ?thesis by auto
      qed
      finally show ?thesis .
    qed
  qed
qed

lemma keys_loop_all:
  "keys_loop h objA objB keysA 0 \<longleftrightarrow>
     (\<forall>k\<in>set keysA. hasOwnProperty h objB k \<and> Object_is (get_prop h objA k) (get_prop h objB k))"
  unfolding keys_loop_iff by (metis in_set_conv_nth le0)

lemma non_null_object: "typeof_js v = ''object'' \<and> \<not> strict_eq v Null \<longleftrightarrow> (\<exists>a. v = Obj a)"
  by (cases v) (simp_all add: typeof_js_def strict_eq_def)

text \<open>
  What the function computes, on every input: the key counts agree and every enumerable key of
  the first object is an own property of the second, enumerable or not, with a SameValue-equal
  value.
\<close>

lemma shallowEqual_iff:
  "shallowEqual h objA objB \<longleftrightarrow>
     Object_is objA objB \<or>
     ((\<exists>a. objA = Obj a) \<and> (\<exists>b. objB = Obj b) \<and>
      length (Object_keys h objA) = length (Object_keys h objB) \<and>
      (\<forall>k\<in>set (Object_keys h objA).
         hasOwnProperty h objB k \<and> Object_is (get_prop h objA k) (get_prop h objB k)))"
proof -
  have "typeof_js objA \<noteq> ''object'' \<or> strict_eq objA Null
          \<or> typeof_js objB \<noteq> ''object'' \<or> strict_eq objB Null
        \<longleftrightarrow> \<not> ((\<exists>a. objA = Obj a) \<and> (\<exists>b. objB = Obj b))"
    using non_null_object [of objA] non_null_object [of objB] by blast
  then show ?thesis
    unfolding shallowEqual_def Let_def keys_loop_all is_js_Object_is by auto
qed

lemma distinct_Object_keys: "wf_obj (props_of h v) \<Longrightarrow> distinct (Object_keys h v)"
  unfolding wf_obj_def Object_keys_def by (rule distinct_map_filter)

lemma same_keys_iff:
  assumes "distinct xs" "distinct ys"
  shows "length xs = length ys \<and> set xs \<subseteq> set ys \<longleftrightarrow> set xs = set ys"
proof
  assume "length xs = length ys \<and> set xs \<subseteq> set ys"
  then have "card (set ys) \<le> card (set xs)" "set xs \<subseteq> set ys"
    using assms by (simp_all add: distinct_card)
  then show "set xs = set ys"
    by (simp add: card_seteq)
next
  assume "set xs = set ys"
  then show "length xs = length ys \<and> set xs \<subseteq> set ys"
    using assms by (metis distinct_card order_refl)
qed

text \<open>
  Claim C6. The claim is what the comment above the function promises, \<^verbatim>\<open>false\<close> when any key
  has values that differ between the arguments, and what the length check and the loop
  commented \<^verbatim>\<open>Test for A's keys different from B\<close> set out to decide. The code misses it: the
  loop asks \<^verbatim>\<open>hasOwnProperty\<close>, which also finds properties that are not enumerable, while
  the key lists come from \<^verbatim>\<open>Object.keys\<close>. For \<^verbatim>\<open>{length: 1}\<close> and the array \<^verbatim>\<open>['x']\<close> the key
  lists are \<^verbatim>\<open>['length']\<close> and \<^verbatim>\<open>['0']\<close>, of the same length; the array has an own
  \<^verbatim>\<open>length\<close>, equal to 1; the two values are not SameValue-equal, their enumerable keys
  differ, the values at key \<^verbatim>\<open>'0'\<close> differ, and the function returns \<^verbatim>\<open>true\<close>.
\<close>

theorem shallowEqual_array_like:
  "shallowEqual array_like_heap (Obj 0) (Obj 1) \<and>
   \<not> Object_is (Obj 0) (Obj 1) \<and>
   Object_keys array_like_heap (Obj 0) = [''length''] \<and>
   Object_keys array_like_heap (Obj 1) = [''0''] \<and>
   get_prop array_like_heap (Obj 0) ''0'' = Undefined \<and>
   get_prop array_like_heap (Obj 1) ''0'' = Str ''x''"
  by (simp add: shallowEqual_def is_js_Object_is Object_is_def typeof_js_def strict_eq_def
      Object_keys_def props_of_def array_like_heap_def keys_loop.simps hasOwnProperty_def
      get_prop_def)

theorem shallowEqual_array_like_witness:
  "shallowEqual array_like_heap (Obj 0) (Obj 1) \<and>
   set (Object_keys array_like_heap (Obj 0)) \<noteq> set (Object_keys array_like_heap (Obj 1))"
  using shallowEqual_array_like by simp

text \<open>
  Away from that case the function decides what it is meant to: when no own enumerable key of
  the first operand names an own property of the second that is not enumerable (two plain
  objects, two arrays), it returns \<^verbatim>\<open>true\<close> exactly when the two values are SameValue-equal,
  or both are objects other than \<^verbatim>\<open>null\<close>, with the same set of own enumerable keys and
  SameValue-equal values at every key. (Objects are taken with one property of a name at
  most.)
\<close>

lemma shallowEqual_same_keys:
  assumes "wf_obj (props_of h objA)" and "wf_obj (props_of h objB)"
    and "\<forall>k\<in>set (Object_keys h objA). hasOwnProperty h objB k \<longrightarrow> k \<in> set (Object_keys h objB)"
  shows "shallowEqual h objA objB \<longleftrightarrow>
     Object_is objA objB \<or>
     ((typeof_js objA = ''object'' \<and> objA \<noteq> Null) \<and> (typeof_js objB = ''object'' \<and> objB \<noteq> Null) \<and>
      set (Object_keys h objA) = set (Object_keys h objB) \<and>
      (\<forall>k\<in>set (Object_keys h objA). Object_is (get_prop h objA k) (get_prop h objB k)))"
proof -
  let ?A = "Object_keys h objA" and ?B = "Object_keys h objB"
  have own: "hasOwnProperty h objB k" if "k \<in> set ?B" for k
    using that by (auto simp: hasOwnProperty_def Object_keys_def)
  have "length ?A = length ?B \<and> (\<forall>k\<in>set ?A. hasOwnProperty h objB k) \<longleftrightarrow> set ?A = set ?B"
  proof
    assume l: "length ?A = length ?B \<and> (\<forall>k\<in>set ?A. hasOwnProperty h objB k)"
    with assms(3) have "set ?A \<subseteq> set ?B" by blast
    with l same_keys_iff [OF distinct_Object_keys [OF assms(1)] distinct_Object_keys [OF assms(2)]]
    show "set ?A = set ?B" by blast
  next
    assume e: "set ?A = set ?B"
    with same_keys_iff [OF distinct_Object_keys [OF assms(1)] distinct_Object_keys [OF assms(2)]]
    have "length ?A = length ?B" by blast
    with e own show "length ?A = length ?B \<and> (\<forall>k\<in>set ?A. hasOwnProperty h objB k)" by blast
  qed
  moreover have "typeof_js v = ''object'' \<and> v \<noteq> Null \<longleftrightarrow> (\<exists>a. v = Obj a)" for v
    by (cases v) (simp_all add: typeof_js_def)
  ultimately show ?thesis
    unfolding shallowEqual_iff by blast
qed

lemma shallowEqual_same_keys_example:
  "wf_obj (props_of records_heap (Obj 0)) \<and> wf_obj (props_of records_heap (Obj 1)) \<and>
   wf_obj (props_of records_heap (Obj 2)) \<and>
   shallowEqual records_heap (Obj 0) (Obj 1) \<and> \<not> shallowEqual records_heap (Obj 0) (Obj 2) \<and>
   wf_obj (props_of records_heap (Obj 3)) \<and> wf_obj (props_of records_heap (Obj 4)) \<and>
   shallowEqual records_heap (Obj 3) (Obj 4)"
proof -
  have wf: "wf_obj (props_of records_heap (Obj 0))" "wf_obj (props_of records_heap (Obj 1))"
      "wf_obj (props_of records_heap (Obj 2))" "wf_obj (props_of records_heap (Obj 3))"
      "wf_obj (props_of records_heap (Obj 4))"
    by (simp_all add: wf_obj_def props_of_def records_heap_def)
  have en:
    "\<forall>k\<in>set (Object_keys records_heap (Obj 0)).
        hasOwnProperty records_heap (Obj 1) k \<longrightarrow> k \<in> set (Object_keys records_heap (Obj 1))"
    "\<forall>k\<in>set (Object_keys records_heap (Obj 0)).
        hasOwnProperty records_heap (Obj 2) k \<longrightarrow> k \<in> set (Object_keys records_heap (Obj 2))"
    "\<forall>k\<in>set (Object_keys records_heap (Obj 3)).
        hasOwnProperty records_heap (Obj 4) k \<longrightarrow> k \<in> set (Object_keys records_heap (Obj 4))"
    by (simp_all add: Object_keys_def hasOwnProperty_def props_of_def records_heap_def)
  from wf shallowEqual_same_keys [OF wf(1) wf(2) en(1)] shallowEqual_same_keys [OF wf(1) wf(3) en(2)]
    shallowEqual_same_keys [OF wf(4) wf(5) en(3)]
  show ?thesis
    by (auto simp: Object_is_def typeof_js_def Object_keys_def props_of_def records_heap_def
        get_prop_def double_NaN_def isNaN64_def)
qed

section \<open>The observer of \<^verbatim>\<open>usePick\<close>\<close>

lemma sub_frame:
  "ref_picker (fst (sub E b c)) = ref_picker b"
  "ref_oldState (fst (sub E b c)) = ref_oldState b"
  "pickedState (fst (sub E b c)) = pickedState b"
  by (simp_all add: sub_def setPickedState_def Let_def case_prod_beta)

lemma foldl_sub_frame:
  "ref_picker (foldl (\<lambda>b c. fst (sub E b c)) b cs) = ref_picker b \<and>
   ref_oldState (foldl (\<lambda>b c. fst (sub E b c)) b cs) = ref_oldState b \<and>
   pickedState (foldl (\<lambda>b c. fst (sub E b c)) b cs) = pickedState b"
  by (induction cs arbitrary: b) (simp_all add: sub_frame)

lemma usePick_rendered:
  "usePick E picker inst c0 = (shown, b, c1) \<Longrightarrow>
   ref_picker b = picker \<and> ref_oldState b = shown \<and> pickedState b = shown \<and> pending b = []"
  by (auto simp: usePick_def Let_def case_prod_beta split: option.splits)

text \<open>
  What the observer compares with. Take the most recent render of a component that calls
  \<^verbatim>\<open>usePick(picker)\<close>; it returned the projection \<open>shown\<close>. When the observer runs afterwards,
  after any number of earlier runs since that render, on a container whose current value the
  picker of that render projects to \<open>pickedNew\<close>, it enqueues \<open>pickedNew\<close> exactly when
  \<open>pickedNew\<close> is not shallow-equal to \<open>shown\<close>: the comparison is with what the last render
  returned, whatever has been enqueued since.
\<close>

lemma sub_after_render:
  assumes "usePick E (Fun picker) inst c0 = (shown, b0, c1)"
    and "b = foldl (\<lambda>b c. fst (sub E b c)) b0 cs"
    and "call_fn E picker (get c) (heap c) = (pickedNew, h)"
  shows "sub E b c
           = (if shallowEqual h shown pickedNew then b else b\<lparr>pending := pending b @ [pickedNew]\<rparr>,
              c\<lparr>heap := h\<rparr>)
         \<and> pickedState b = shown
         \<and> fst (usePick E picker' (Some (fst (sub E b c))) c')
             = (if shallowEqual h shown pickedNew
                then (if pending b = [] then shown else last (pending b))
                else pickedNew)"
proof -
  from usePick_rendered [OF assms(1)] foldl_sub_frame [of E b0 cs] assms(2)
  have b: "ref_picker b = Fun picker" "ref_oldState b = shown" "pickedState b = shown"
    by simp_all
  with assms(3) have "sub E b c
           = (if shallowEqual h shown pickedNew then b else b\<lparr>pending := pending b @ [pickedNew]\<rparr>,
              c\<lparr>heap := h\<rparr>)"
    by (simp add: sub_def setPickedState_def get_def)
  with b show ?thesis
    by (simp add: usePick_def Let_def)
qed

lemmas update_eval = update_def set_js_def next_state_def typeof_js_def call_fn_def
  object_spread_def spread_props_def props_of_def get_prop_def objectIs_def Object_is_def
  forEach.simps get_def host_def

lemma first_render_eq:
  "first_render =
     (Num double_1,
      \<lparr>ref_picker = Fun (User 3), ref_oldState = Num double_1, pickedState = Num double_1,
         pending = []\<rparr>,
      profile)"
  by (simp add: first_render_def profile_def usePick_def call_fn_def host_def get_prop_def
      props_of_def)

lemma profile_a2_eq:
  "profile_a2 =
     profile\<lparr>state := Obj 3,
       heap := heap profile @
         [[DataProperty ''a'' (Num double_2) True, DataProperty ''b'' (Num double_2) True]]\<rparr>"
  by (simp add: profile_a2_def profile_def update_eval)

lemma profile_a1_eq:
  "profile_a1 =
     profile\<lparr>state := Obj 4,
       heap := heap profile @
         [[DataProperty ''a'' (Num double_2) True, DataProperty ''b'' (Num double_2) True],
          [DataProperty ''a'' (Num double_1) True, DataProperty ''b'' (Num double_2) True]]\<rparr>"
  unfolding profile_a1_def profile_a2_eq by (simp add: profile_def update_eval)

lemma binding_a2_eq:
  "binding_a2 =
     \<lparr>ref_picker = Fun (User 3), ref_oldState = Num double_1, pickedState = Num double_1,
        pending = [Num double_2]\<rparr>"
  unfolding binding_a2_def first_render_eq profile_a2_eq
  by (simp add: profile_def sub_def setPickedState_def call_fn_def host_def get_prop_def
      props_of_def shallowEqual_def is_js_Object_is Object_is_def typeof_js_def double_1_def
      double_2_def isNaN64_def Let_def)

text \<open>
  Claim C9. The claim is what the observer sets out to do: it keeps the projection of each
  render in \<^verbatim>\<open>ref.current.oldState\<close> and compares the new projection with it. The code misses
  the case of two changes with no render in between, as when one event handler calls
  \<^verbatim>\<open>update\<close> twice. A component shows \<^verbatim>\<open>s.a\<close> of \<^verbatim>\<open>{a: 1, b: 2}\<close>, which is 1. After
  \<^verbatim>\<open>update({a: 2})\<close> the observer enqueues 2, the stored projection from then on. After
  \<^verbatim>\<open>update({a: 1})\<close> the new projection 1 is not shallow-equal to the stored 2, but the
  observer compares it with the 1 of the last render and enqueues nothing: the next render
  returns 2 for a container whose value projects to 1. Had the second call been
  \<^verbatim>\<open>update({a: 2})\<close> again, the new projection 2 would be shallow-equal to the stored 2, and
  the observer would enqueue it a second time.
\<close>

theorem usePick_stale_projection:
  "fst first_render = Num double_1 \<and>
   pending binding_a2 = [Num double_2] \<and>
   fst (call_fn host (User 3) (get profile_a1) (heap profile_a1)) = Num double_1 \<and>
   \<not> shallowEqual (heap profile_a1) (Num double_2) (Num double_1) \<and>
   binding_a1 = binding_a2 \<and>
   fst (usePick host (Fun (User 3)) (Some binding_a1) profile_a1) = Num double_2 \<and>
   shallowEqual (heap profile_a2) (Num double_2) (Num double_2) \<and>
   pending (fst (sub host binding_a2 (update host (Obj 1) profile_a2)))
     = [Num double_2, Num double_2]"
proof -
  have proj: "fst (call_fn host (User 3) (get profile_a1) (heap profile_a1)) = Num double_1"
    unfolding profile_a1_eq
    by (simp add: profile_def call_fn_def host_def get_prop_def props_of_def get_def nth_append)
  have differ: "\<not> shallowEqual (heap profile_a1) (Num double_2) (Num double_1)"
    "shallowEqual (heap profile_a2) (Num double_2) (Num double_2)"
    by (simp_all add: shallowEqual_def is_js_Object_is Object_is_def typeof_js_def double_1_def
        double_2_def isNaN64_def)
  have same: "binding_a1 = binding_a2"
    unfolding binding_a1_def profile_a1_eq binding_a2_eq
    by (simp add: profile_def sub_def setPickedState_def call_fn_def host_def get_prop_def
        props_of_def shallowEqual_def is_js_Object_is Object_is_def nth_append Let_def)
  have stale: "fst (usePick host (Fun (User 3)) (Some binding_a1) profile_a1) = Num double_2"
    unfolding same binding_a2_eq by (simp add: usePick_def Let_def)
  have again: "pending (fst (sub host binding_a2 (update host (Obj 1) profile_a2)))
     = [Num double_2, Num double_2]"
    unfolding profile_a2_eq binding_a2_eq
    by (simp add: profile_def update_eval sub_def setPickedState_def shallowEqual_def
        is_js_Object_is nth_append double_1_def double_2_def isNaN64_def Let_def)
  have shown: "fst first_render = Num double_1"
    by (simp add: first_render_eq)
  have queued: "pending binding_a2 = [Num double_2]"
    by (simp add: binding_a2_eq)
  show ?thesis
    by (intro conjI; fact)
qed

theorem usePick_stale_projection_witness:
  "fst (usePick host (Fun (User 3)) (Some binding_a1) profile_a1)
     \<noteq> fst (call_fn host (User 3) (get profile_a1) (heap profile_a1))"
proof -
  from usePick_stale_projection
  have a: "fst (usePick host (Fun (User 3)) (Some binding_a1) profile_a1) = Num double_2"
    and b: "fst (call_fn host (User 3) (get profile_a1) (heap profile_a1)) = Num double_1"
    by blast+
  show ?thesis
    unfolding a b by (simp add: double_1_def double_2_def)
qed

end
